theory Spec2Isabelle
  imports Complex_Main
begin

section \<open>HITL approval card (components/Workflow/HITLApprovalCard)\<close>

text \<open>
  The TypeScript union \<^verbatim>\<open>'pending' | 'approved' | 'rejected'\<close> of a mapping candidate's
  \<^verbatim>\<open>status\<close> field.
\<close>

datatype mapping_status = Pending | Approved | Rejected

text \<open>
  \<^verbatim>\<open>interface MappingCandidate\<close>. The field \<^verbatim>\<open>status\<close> is called \<open>m_status\<close> here, since
  the run, the step and the event have a field of that name too.
\<close>

record MappingCandidate =
  mapping_id :: string
  source_table :: string
  source_column :: string
  target_table :: string
  target_column :: string
  confidence :: real
  rationale :: string
  m_status :: mapping_status

text \<open>
  The state of one mounted approval card: the \<^verbatim>\<open>useState\<close> cells \<^verbatim>\<open>localMappings\<close>,
  \<^verbatim>\<open>submitting\<close> and \<^verbatim>\<open>selectedIds\<close> (a JavaScript \<^verbatim>\<open>Set<string>\<close>).
\<close>

record HITLApprovalCard =
  localMappings :: "MappingCandidate list"
  submitting :: bool
  selectedIds :: "string set"

definition handleApprove :: "string \<Rightarrow> HITLApprovalCard \<Rightarrow> HITLApprovalCard" where
  "handleApprove mappingId c =
     c\<lparr>localMappings :=
         map (\<lambda>m. if mapping_id m = mappingId then m\<lparr>m_status := Approved\<rparr> else m)
           (localMappings c)\<rparr>"

definition handleReject :: "string \<Rightarrow> HITLApprovalCard \<Rightarrow> HITLApprovalCard" where
  "handleReject mappingId c =
     c\<lparr>localMappings :=
         map (\<lambda>m. if mapping_id m = mappingId then m\<lparr>m_status := Rejected\<rparr> else m)
           (localMappings c)\<rparr>"

definition handleApproveAll :: "HITLApprovalCard \<Rightarrow> HITLApprovalCard" where
  "handleApproveAll c =
     c\<lparr>localMappings := map (\<lambda>m. m\<lparr>m_status := Approved\<rparr>) (localMappings c)\<rparr>"

definition handleRejectAll :: "HITLApprovalCard \<Rightarrow> HITLApprovalCard" where
  "handleRejectAll c =
     c\<lparr>localMappings := map (\<lambda>m. m\<lparr>m_status := Rejected\<rparr>) (localMappings c)\<rparr>"

definition handleToggleSelect :: "string \<Rightarrow> HITLApprovalCard \<Rightarrow> HITLApprovalCard" where
  "handleToggleSelect mappingId c =
     c\<lparr>selectedIds :=
         (if mappingId \<in> selectedIds c then selectedIds c - {mappingId}
          else insert mappingId (selectedIds c))\<rparr>"

definition handleSelectAll :: "HITLApprovalCard \<Rightarrow> HITLApprovalCard" where
  "handleSelectAll c =
     c\<lparr>selectedIds :=
         (if card (selectedIds c) = length (localMappings c) then {}
          else set (map mapping_id (localMappings c)))\<rparr>"

definition handleApproveSelected :: "HITLApprovalCard \<Rightarrow> HITLApprovalCard" where
  "handleApproveSelected c =
     c\<lparr>localMappings :=
         map (\<lambda>m. if mapping_id m \<in> selectedIds c then m\<lparr>m_status := Approved\<rparr> else m)
           (localMappings c),
       selectedIds := {}\<rparr>"

definition handleRejectSelected :: "HITLApprovalCard \<Rightarrow> HITLApprovalCard" where
  "handleRejectSelected c =
     c\<lparr>localMappings :=
         map (\<lambda>m. if mapping_id m \<in> selectedIds c then m\<lparr>m_status := Rejected\<rparr> else m)
           (localMappings c),
       selectedIds := {}\<rparr>"

text \<open>
  One entry of the \<^verbatim>\<open>approvals\<close> array that \<^verbatim>\<open>handleSubmit\<close> posts to
  \<^verbatim>\<open>/hitl/approve/{runId}\<close>.
\<close>

record approval =
  a_mapping_id :: string
  a_status :: mapping_status

text \<open>
  \<^verbatim>\<open>handleSubmit\<close>: the value is the request body built from \<^verbatim>\<open>localMappings\<close>; the
  request itself and the \<^verbatim>\<open>submitting\<close>/\<^verbatim>\<open>error\<close> bookkeeping around it are outside the
  model.
\<close>

definition handleSubmit :: "HITLApprovalCard \<Rightarrow> approval list" where
  "handleSubmit c =
     map (\<lambda>m. \<lparr>a_mapping_id = mapping_id m,
               a_status = (if m_status m = Pending then Approved else m_status m)\<rparr>)
       (localMappings c)"

definition pendingCount :: "HITLApprovalCard \<Rightarrow> nat" where
  "pendingCount c = length (filter (\<lambda>m. m_status m = Pending) (localMappings c))"

definition approvedCount :: "HITLApprovalCard \<Rightarrow> nat" where
  "approvedCount c = length (filter (\<lambda>m. m_status m = Approved) (localMappings c))"

definition rejectedCount :: "HITLApprovalCard \<Rightarrow> nat" where
  "rejectedCount c = length (filter (\<lambda>m. m_status m = Rejected) (localMappings c))"

definition allReviewed :: "HITLApprovalCard \<Rightarrow> bool" where
  "allReviewed c = (pendingCount c = 0)"

text \<open>The \<^verbatim>\<open>disabled\<close> attribute of the submit button.\<close>

definition submitDisabled :: "HITLApprovalCard \<Rightarrow> bool" where
  "submitDisabled c = (submitting c \<or> \<not> allReviewed c)"

text \<open>
  A click on the submit button: a disabled button does not fire \<^verbatim>\<open>onClick\<close>, an enabled
  one runs \<^verbatim>\<open>handleSubmit\<close>.
\<close>

definition clickSubmit :: "HITLApprovalCard \<Rightarrow> approval list option" where
  "clickSubmit c = (if submitDisabled c then None else Some (handleSubmit c))"

text \<open>The six buttons of the card that rewrite candidate decisions.\<close>

datatype card_action =
    Approve string
  | Reject string
  | ApproveAll
  | RejectAll
  | ApproveSelected
  | RejectSelected

fun perform :: "card_action \<Rightarrow> HITLApprovalCard \<Rightarrow> HITLApprovalCard" where
  "perform (Approve i) c = handleApprove i c"
| "perform (Reject i) c = handleReject i c"
| "perform ApproveAll c = handleApproveAll c"
| "perform RejectAll c = handleRejectAll c"
| "perform ApproveSelected c = handleApproveSelected c"
| "perform RejectSelected c = handleRejectSelected c"


section \<open>ETL progress card (components/Workflow/ETLProgressCard)\<close>

text \<open>One entry \<^verbatim>\<open>{ name, label }\<close> of the constant \<^verbatim>\<open>ETL_STEPS\<close>.\<close>

record StepDef =
  def_name :: string
  def_label :: string

definition ETL_STEPS :: "StepDef list" where
  "ETL_STEPS =
     [\<lparr>def_name = ''download'', def_label = ''Download from GCS''\<rparr>,
      \<lparr>def_name = ''profiler'', def_label = ''Data Profiling''\<rparr>,
      \<lparr>def_name = ''staging'', def_label = ''Staging to BigQuery''\<rparr>,
      \<lparr>def_name = ''mapper'', def_label = ''Schema Mapping''\<rparr>,
      \<lparr>def_name = ''hitl'', def_label = ''Human Approval''\<rparr>,
      \<lparr>def_name = ''create_tables'', def_label = ''Create Target Tables''\<rparr>,
      \<lparr>def_name = ''transform'', def_label = ''Generate Transforms''\<rparr>,
      \<lparr>def_name = ''execute'', def_label = ''Execute Transforms''\<rparr>,
      \<lparr>def_name = ''validator'', def_label = ''Data Validation''\<rparr>,
      \<lparr>def_name = ''feedback'', def_label = ''Capture Feedback''\<rparr>,
      \<lparr>def_name = ''cleanup'', def_label = ''Cleanup''\<rparr>]"

text \<open>
  The step list as the specification words it (section 4.1, \<^verbatim>\<open>start\<close>); it is compared
  with the names of \<^const>\<open>ETL_STEPS\<close> below and used nowhere else.
\<close>

definition spec_step_list :: "string list" where
  "spec_step_list =
     [''download'', ''profile'', ''stage'', ''map'', ''hitl'', ''create_tables'',
      ''transform'', ''execute'', ''validate'', ''feedback'', ''cleanup'']"

text \<open>
  The props of the card that its progress logic reads. \<^verbatim>\<open>overallProgress\<close> is a JavaScript
  number that the caller takes from the run record, where the field may be missing:
  \<open>None\<close> stands for \<^verbatim>\<open>undefined\<close> (and \<^verbatim>\<open>NaN\<close>), which \<^verbatim>\<open>overallProgress || 0\<close> reads as 0.
  The model does not tell these values apart, where the comparison of dependencies in
  \<^verbatim>\<open>useMemo\<close> does: a change from one of them to another recomputes in the source and
  not here. Both are read as 0 by the memo.
\<close>

record ETLProgressCardProps =
  runId :: string
  overallProgress :: "int option"

text \<open>
  What React keeps for one mounted card between renders: the ref \<^verbatim>\<open>maxProgressRef\<close>, the
  cell of \<^verbatim>\<open>useMemo\<close> (its dependency \<^verbatim>\<open>[overallProgress]\<close> at the last computation and the
  value computed then, which is the \<^verbatim>\<open>smoothProgress\<close> the card shows) and the dependency
  \<^verbatim>\<open>[runId]\<close> of the \<^verbatim>\<open>useEffect\<close> at its last run.
\<close>

record ETLProgressCard =
  maxProgressRef :: int
  memoDeps :: "int option"
  smoothProgress :: int
  effectDeps :: string

text \<open>\<^verbatim>\<open>Math.max(0, Math.min(100, overallProgress || 0))\<close>\<close>

definition newProgress :: "int option \<Rightarrow> int" where
  "newProgress p = max 0 (min 100 (case p of None \<Rightarrow> 0 | Some x \<Rightarrow> x))"

text \<open>
  The function passed to \<^verbatim>\<open>useMemo\<close>: from the ref's content and the prop to the ref's new
  content, which is also the value returned.
\<close>

definition smoothProgressMemo :: "int \<Rightarrow> int option \<Rightarrow> int" where
  "smoothProgressMemo maxRef p = (if newProgress p > maxRef then newProgress p else maxRef)"

text \<open>
  The first render of a card. \<^verbatim>\<open>useRef(0)\<close> starts the ref at 0, \<^verbatim>\<open>useMemo\<close> computes during
  the render, and the effect \<^verbatim>\<open>maxProgressRef.current = 0\<close> runs once the render is committed,
  as every effect does after the first render.
\<close>

definition mount :: "ETLProgressCardProps \<Rightarrow> ETLProgressCard" where
  "mount props =
     (let shown = smoothProgressMemo 0 (overallProgress props)
      in \<lparr>maxProgressRef = 0, memoDeps = overallProgress props,
          smoothProgress = shown, effectDeps = runId props\<rparr>)"

text \<open>
  A later render of the same card with new props. \<^verbatim>\<open>useMemo\<close> recomputes during the render
  when \<^verbatim>\<open>overallProgress\<close> differs from the value of the last computation and returns the
  cached value otherwise; after the render the effect resets the ref when \<^verbatim>\<open>runId\<close> differs
  from its value at the effect's last run.
\<close>

definition render :: "ETLProgressCard \<Rightarrow> ETLProgressCardProps \<Rightarrow> ETLProgressCard" where
  "render c props =
     (let recompute = (overallProgress props \<noteq> memoDeps c);
          shown = (if recompute then smoothProgressMemo (maxProgressRef c) (overallProgress props)
                   else smoothProgress c);
          maxRef = (if recompute then shown else maxProgressRef c)
      in \<lparr>maxProgressRef = (if runId props \<noteq> effectDeps c then 0 else maxRef),
          memoDeps = (if recompute then overallProgress props else memoDeps c),
          smoothProgress = shown,
          effectDeps = runId props\<rparr>)"

text \<open>The progress values one card shows over a sequence of renders, oldest first.\<close>

fun shownFrom :: "ETLProgressCard \<Rightarrow> ETLProgressCardProps list \<Rightarrow> int list" where
  "shownFrom c [] = []"
| "shownFrom c (p # ps) = smoothProgress (render c p) # shownFrom (render c p) ps"

fun shown :: "ETLProgressCardProps list \<Rightarrow> int list" where
  "shown [] = []"
| "shown (p # ps) = smoothProgress (mount p) # shownFrom (mount p) ps"


section \<open>Chat window: the handler of workflow events (components/ChatInterface/ChatWindow)\<close>

text \<open>The status of a step record, \<^verbatim>\<open>'pending' | 'running' | 'completed' | 'error'\<close>.\<close>

datatype step_status = SPending | SRunning | SCompleted | SError

text \<open>\<^verbatim>\<open>interface ETLStep\<close>, the element type of the store's \<^verbatim>\<open>etlSteps\<close>.\<close>

record ETLStep =
  name :: string
  label :: string
  step_status :: step_status
  step_message :: "string option"
  step_progress :: "int option"

text \<open>
  The fields of the run record that the window reads or writes. A field that JavaScript may
  leave \<^verbatim>\<open>undefined\<close> is an option. The run's \<^verbatim>\<open>status\<close> is a string in the source (the
  handler stores its computed status \<^verbatim>\<open>as any\<close>).
\<close>

record Run =
  run_id :: string
  filename :: "string option"
  folder_path :: "string option"
  gcs_uri :: "string option"
  source_type :: "string option"
  run_status :: string
  current_step :: string
  run_progress :: "int option"
  run_error :: "string option"

text \<open>
  The object literal handed to \<^verbatim>\<open>updateCurrentRun\<close>: \<open>None\<close> is a key that the literal
  does not have, \<open>Some v\<close> a key written with the value \<open>v\<close> (which for \<^verbatim>\<open>progress\<close> and
  \<^verbatim>\<open>error\<close> may itself be \<^verbatim>\<open>undefined\<close>).
\<close>

record RunPatch =
  p_status :: "string option"
  p_current_step :: "string option"
  p_progress :: "int option option"
  p_error :: "string option option"

text \<open>
  The payload \<^verbatim>\<open>data\<close> of an event, which the handler reads through \<^verbatim>\<open>(update as any)\<close>:
  the keys it looks at. A transformation is an opaque value, kept as its text.
\<close>

record UpdateData =
  d_mappings :: "MappingCandidate list option"
  d_transformations :: "string list option"
  d_reviewed :: "nat option"
  d_pending :: "nat option"

text \<open>\<^verbatim>\<open>WorkflowUpdate\<close>, one message of the run's event stream as the handler reads it.\<close>

record WorkflowUpdate =
  u_type :: string
  u_step :: string
  u_status :: string
  u_message :: "string option"
  u_progress :: "int option"
  u_error :: "string option"
  u_data :: "UpdateData option"

text \<open>
  The state the handler works on: the store's \<^verbatim>\<open>currentRun\<close> and \<^verbatim>\<open>etlSteps\<close>, the window's
  \<^verbatim>\<open>useState\<close> cells and its ref \<^verbatim>\<open>workflowCompletedRef\<close>. \<open>hitlReadyTimers\<close> counts the
  300 ms timers that the handler has started and that have not fired yet. The handler is
  taken to see the current values of \<^verbatim>\<open>currentRun\<close>, \<^verbatim>\<open>etlSteps\<close> and \<^verbatim>\<open>workflowCompleted\<close>
  (the hook calls the callback of the latest render).
\<close>

record ChatWindow =
  currentRun :: "Run option"
  etlSteps :: "ETLStep list"
  hitlMappings :: "MappingCandidate list"
  showHitlApproval :: bool
  hitlReady :: bool
  workflowCompleted :: bool
  workflowMappings :: "MappingCandidate list"
  workflowTransformations :: "string list"
  workflowCompletedRef :: bool
  hitlReadyTimers :: nat

text \<open>
  Modelled from the spec: the store \<^verbatim>\<open>stores/chatStore\<close> is not among the sources, so its
  action \<^verbatim>\<open>updateCurrentRun\<close> follows the specification's data model, where a run is
  "patched, never replaced": every key of the patch overwrites the run's field, the other
  fields stay, and without a current run nothing happens.
\<close>

definition updateCurrentRun :: "RunPatch \<Rightarrow> Run option \<Rightarrow> Run option" where
  "updateCurrentRun p cur =
     (case cur of
        None \<Rightarrow> None
      | Some r \<Rightarrow>
          Some (r\<lparr>run_status := (case p_status p of None \<Rightarrow> run_status r | Some v \<Rightarrow> v),
                  current_step := (case p_current_step p of None \<Rightarrow> current_step r | Some v \<Rightarrow> v),
                  run_progress := (case p_progress p of None \<Rightarrow> run_progress r | Some v \<Rightarrow> v),
                  run_error := (case p_error p of None \<Rightarrow> run_error r | Some v \<Rightarrow> v)\<rparr>))"

text \<open>
  Modelled from the spec: the store's action \<^verbatim>\<open>updateETLStep(name, status, message)\<close> is
  not among the sources either. The specification has the steps as an "ordered mapping from
  step name to StepRecord \<open>{status, message, updated_at}\<close>": the record of the named step
  takes the status and the message of the call, every other record stays, and so does the
  order.
\<close>

definition updateETLStep ::
    "string \<Rightarrow> step_status \<Rightarrow> string option \<Rightarrow> ETLStep list \<Rightarrow> ETLStep list" where
  "updateETLStep stepName st msg steps =
     map (\<lambda>s. if name s = stepName then s\<lparr>step_status := st, step_message := msg\<rparr> else s) steps"

text \<open>A number inside a template literal.\<close>

fun string_of_nat :: "nat \<Rightarrow> string" where
  "string_of_nat n =
     (if n < 10 then [char_of (48 + n)]
      else string_of_nat (n div 10) @ [char_of (48 + n mod 10)])"

text \<open>
  The loop \<^verbatim>\<open>etlSteps.forEach(step => ...)\<close> of the handler's first branch: it walks the
  steps as they were when the event arrived and calls the store for each one that is
  pending or running.
\<close>

definition completeOpenSteps :: "ETLStep list \<Rightarrow> ETLStep list" where
  "completeOpenSteps steps =
     foldl (\<lambda>store step.
              if step_status step = SPending \<or> step_status step = SRunning
              then updateETLStep (name step) SCompleted None store
              else store)
       steps steps"

text \<open>The step status the handler derives once the workflow has completed.\<close>

definition completedStepStatus :: "string \<Rightarrow> step_status" where
  "completedStepStatus st =
     (if st = ''completed'' then SCompleted
      else if st = ''failed'' \<or> st = ''error'' then SError
      else SRunning)"

text \<open>The step status the handler derives for a regular update.\<close>

definition stepStatus :: "string \<Rightarrow> step_status" where
  "stepStatus st =
     (if st = ''completed'' then SCompleted
      else if st = ''failed'' \<or> st = ''error'' then SError
      else if st = ''started'' \<or> st = ''running'' \<or> st = ''waiting''
              \<or> st = ''waiting_for_approval'' then SRunning
      else SPending)"

text \<open>The run status the handler derives for a regular update.\<close>

definition workflowStatus :: "WorkflowUpdate \<Rightarrow> string" where
  "workflowStatus u =
     (if u_status u = ''completed'' \<and> u_type u = ''workflow_update'' then ''running''
      else if u_status u = ''failed'' \<or> u_status u = ''error'' then ''failed''
      else ''running'')"

text \<open>\<^verbatim>\<open>update.data?.mappings\<close> and \<^verbatim>\<open>update.data?.transformations\<close>\<close>

definition dataMappings :: "WorkflowUpdate \<Rightarrow> MappingCandidate list option" where
  "dataMappings u = (case u_data u of None \<Rightarrow> None | Some d \<Rightarrow> d_mappings d)"

definition dataTransformations :: "WorkflowUpdate \<Rightarrow> string list option" where
  "dataTransformations u = (case u_data u of None \<Rightarrow> None | Some d \<Rightarrow> d_transformations d)"

text \<open>\<^verbatim>\<open>data.reviewed || 0\<close> and \<^verbatim>\<open>data.pending || 0\<close>, with \<^verbatim>\<open>data = update.data || {}\<close>\<close>

definition dataReviewed :: "WorkflowUpdate \<Rightarrow> nat" where
  "dataReviewed u =
     (case u_data u of None \<Rightarrow> 0 | Some d \<Rightarrow> (case d_reviewed d of None \<Rightarrow> 0 | Some n \<Rightarrow> n))"

definition dataPending :: "WorkflowUpdate \<Rightarrow> nat" where
  "dataPending u =
     (case u_data u of None \<Rightarrow> 0 | Some d \<Rightarrow> (case d_pending d of None \<Rightarrow> 0 | Some n \<Rightarrow> n))"

text \<open>
  The callback the window passes to \<^verbatim>\<open>useWebSocket\<close>, which the hook calls as \<^verbatim>\<open>onMessage\<close>
  for every message of the socket. The branches come in the order of the source; the
  first one that returns ends the call.
\<close>

definition onMessage :: "ChatWindow \<Rightarrow> WorkflowUpdate \<Rightarrow> ChatWindow" where
  "onMessage s u =
     (if currentRun s = None then s
      else if u_type u = ''workflow_complete'' then
        s\<lparr>workflowCompletedRef := True,
          workflowCompleted := True,
          etlSteps := completeOpenSteps (etlSteps s),
          currentRun :=
            updateCurrentRun
              \<lparr>p_status = Some ''completed'', p_current_step = Some ''completed'',
               p_progress = Some (Some 100), p_error = None\<rparr>
              (currentRun s),
          showHitlApproval := False,
          hitlMappings := [],
          hitlReady := False\<rparr>
      else if workflowCompletedRef s \<or> workflowCompleted s then
        s\<lparr>etlSteps :=
            updateETLStep (u_step u) (completedStepStatus (u_status u)) (u_message u)
              (etlSteps s)\<rparr>
      else if u_type u = ''hitl_approval_required'' then
        (let mappings = (case dataMappings u of None \<Rightarrow> [] | Some ms \<Rightarrow> ms)
         in s\<lparr>etlSteps :=
                updateETLStep ''hitl'' SRunning
                  (Some (string_of_nat (length mappings) @ '' mapping(s) awaiting approval''))
                  (etlSteps s),
              hitlMappings := mappings,
              showHitlApproval := True,
              hitlReadyTimers := Suc (hitlReadyTimers s)\<rparr>)
      else
        (let s1 = (case dataMappings u of
                     Some ms \<Rightarrow>
                       if u_step u = ''mapper'' \<and> u_status u = ''completed''
                       then s\<lparr>workflowMappings := ms\<rparr> else s
                   | None \<Rightarrow> s);
             s2 = (case dataTransformations u of
                     Some ts \<Rightarrow>
                       if u_step u = ''transform'' \<and> u_status u = ''completed''
                       then s1\<lparr>workflowTransformations := ts\<rparr> else s1
                   | None \<Rightarrow> s1);
             s3 = (if u_type u = ''workflow_complete'' \<and> u_data u \<noteq> None
                   then (let s3a = (case dataMappings u of
                                      Some ms \<Rightarrow> s2\<lparr>workflowMappings := ms\<rparr> | None \<Rightarrow> s2)
                         in (case dataTransformations u of
                               Some ts \<Rightarrow> s3a\<lparr>workflowTransformations := ts\<rparr> | None \<Rightarrow> s3a))
                   else s2);
             s4 = (if u_type u = ''hitl_approval_complete'' \<or> u_type u = ''hitl_complete''
                   then s3\<lparr>showHitlApproval := False, hitlMappings := [], hitlReady := False\<rparr>
                   else s3)
         in if u_type u = ''hitl_progress'' then
              s4\<lparr>etlSteps :=
                   updateETLStep ''hitl'' SRunning
                     (Some (string_of_nat (dataReviewed u) @ '' reviewed, ''
                            @ string_of_nat (dataPending u) @ '' remaining''))
                     (etlSteps s4)\<rparr>
            else
              s4\<lparr>currentRun :=
                   updateCurrentRun
                     \<lparr>p_status = Some (workflowStatus u), p_current_step = Some (u_step u),
                      p_progress = Some (u_progress u), p_error = Some (u_error u)\<rparr>
                     (currentRun s4),
                 etlSteps :=
                   updateETLStep (u_step u) (stepStatus (u_status u)) (u_message u)
                     (etlSteps s4)\<rparr>))"

text \<open>The 300 ms timer of the approval-required branch fires.\<close>

definition hitlReadyTimeout :: "ChatWindow \<Rightarrow> ChatWindow" where
  "hitlReadyTimeout s =
     (if hitlReadyTimers s = 0 then s
      else s\<lparr>hitlReady := True, hitlReadyTimers := hitlReadyTimers s - 1\<rparr>)"

text \<open>\<^verbatim>\<open>handleHitlApprovalComplete\<close>, the card's \<^verbatim>\<open>onApprovalComplete\<close>.\<close>

definition handleHitlApprovalComplete :: "ChatWindow \<Rightarrow> ChatWindow" where
  "handleHitlApprovalComplete s =
     s\<lparr>showHitlApproval := False,
       hitlMappings := [],
       hitlReady := False,
       etlSteps :=
         updateETLStep ''hitl'' SCompleted
           (Some ''Approvals submitted - pipeline continuing'') (etlSteps s)\<rparr>"

text \<open>
  Modelled from the spec: the store's action \<^verbatim>\<open>setCurrentRun\<close> is not among the sources.
  In the specification a run is "created once per workflow invocation": the action makes
  the record it is given the current run.
\<close>

definition setCurrentRun :: "Run \<Rightarrow> ChatWindow \<Rightarrow> ChatWindow" where
  "setCurrentRun r s = s\<lparr>currentRun := Some r\<rparr>"

text \<open>
  \<^verbatim>\<open>handleGCSWorkflowStarted(runId, folderPath, files)\<close>, called when a pipeline has been
  started on a folder. The store's \<^verbatim>\<open>resetETLSteps\<close> is not among the sources; the step list
  it installs is the parameter \<open>initialSteps\<close> (and \<open>newRunId\<close> is the source's
  \<^verbatim>\<open>runId\<close>). The handler clears the approval state and
  both completion flags and makes the new run the current one. (The chat messages it adds
  in the older window are not part of the state modelled here; \<^verbatim>\<open>files\<close> is used for them
  only.)
\<close>

definition handleGCSWorkflowStarted ::
    "ETLStep list \<Rightarrow> string \<Rightarrow> string \<Rightarrow> ChatWindow \<Rightarrow> ChatWindow" where
  "handleGCSWorkflowStarted initialSteps newRunId folderPath s =
     setCurrentRun
       \<lparr>run_id = newRunId, filename = None, folder_path = Some folderPath,
        gcs_uri = Some (''gs://'' @ folderPath), source_type = Some ''gcs_folder'',
        run_status = ''running'', current_step = ''initialized'', run_progress = Some 0,
        run_error = None\<rparr>
       (s\<lparr>etlSteps := initialSteps,
          hitlMappings := [],
          showHitlApproval := False,
          hitlReady := False,
          workflowCompleted := False,
          workflowMappings := [],
          workflowTransformations := [],
          workflowCompletedRef := False\<rparr>)"

text \<open>The answer of \<^verbatim>\<open>uploadFile\<close>, as far as \<^verbatim>\<open>handleFileUpload\<close> reads it.\<close>

record UploadResponse =
  resp_run_id :: string
  resp_filename :: string
  resp_gcs_uri :: string

text \<open>
  \<^verbatim>\<open>handleFileUpload\<close> of the older window (ChatWindow.tsx). \<open>None\<close> is the call that
  returns early because no file was chosen, or whose \<^verbatim>\<open>uploadFile\<close> threw: neither touches
  the state modelled here. With an answer the handler makes a new pending run the current
  one, and does nothing else to this state: it leaves both completion flags as they
  are.
\<close>

definition handleFileUpload :: "UploadResponse option \<Rightarrow> ChatWindow \<Rightarrow> ChatWindow" where
  "handleFileUpload upload s =
     (case upload of
        None \<Rightarrow> s
      | Some response \<Rightarrow>
          setCurrentRun
            \<lparr>run_id = resp_run_id response, filename = Some (resp_filename response),
             folder_path = None, gcs_uri = Some (resp_gcs_uri response), source_type = None,
             run_status = ''pending'', current_step = ''initialized'', run_progress = Some 0,
             run_error = None\<rparr>
            s)"

text \<open>The run-level state an observer of the window sees.\<close>

definition runView :: "ChatWindow \<Rightarrow> (string \<times> int option \<times> string) option" where
  "runView s = map_option (\<lambda>r. (run_status r, run_progress r, current_step r)) (currentRun s)"


text \<open>
  The names of the steps that are pending or running: the names the loop of the first
  branch hands to the store.
\<close>

definition openNames :: "ETLStep list \<Rightarrow> string set" where
  "openNames steps =
     name ` {s \<in> set steps. step_status s = SPending \<or> step_status s = SRunning}"

text \<open>
  What holds of the window from the first \<^verbatim>\<open>workflow_complete\<close> on: without a run nothing
  is latched; with one, the ref is set and the run carries the final values.
\<close>

definition completed_inv :: "ChatWindow \<Rightarrow> bool" where
  "completed_inv s =
     (case currentRun s of
        None \<Rightarrow> True
      | Some r \<Rightarrow>
          workflowCompletedRef s \<and> run_status r = ''completed''
          \<and> current_step r = ''completed'' \<and> run_progress r = Some 100)"

section \<open>Sample data\<close>

definition sample_mappings :: "MappingCandidate list" where
  "sample_mappings =
     [\<lparr>mapping_id = ''m1'', source_table = ''loans'', source_column = ''loans.amt'',
       target_table = ''fact_loan'', target_column = ''fact_loan.amount'',
       confidence = 1 / 2, rationale = ''name similarity'', m_status = Pending\<rparr>,
      \<lparr>mapping_id = ''m2'', source_table = ''loans'', source_column = ''loans.rate'',
       target_table = ''fact_loan'', target_column = ''fact_loan.rate'',
       confidence = 4 / 5, rationale = ''same name'', m_status = Approved\<rparr>,
      \<lparr>mapping_id = ''m3'', source_table = ''borrower'', source_column = ''borrower.nm'',
       target_table = ''dim_borrower'', target_column = ''dim_borrower.zip'',
       confidence = 1 / 5, rationale = [], m_status = Rejected\<rparr>]"

definition sample_card :: HITLApprovalCard where
  "sample_card = \<lparr>localMappings = sample_mappings, submitting = False, selectedIds = {''m1''}\<rparr>"

definition sample_run :: Run where
  "sample_run =
     \<lparr>run_id = ''run-1'', filename = None, folder_path = Some ''lending'',
      gcs_uri = Some ''gs://lending'', source_type = Some ''gcs_folder'',
      run_status = ''running'', current_step = ''execute'', run_progress = Some 72,
      run_error = None\<rparr>"

definition sample_steps :: "ETLStep list" where
  "sample_steps =
     [\<lparr>name = ''transform'', label = ''Generate Transforms'', step_status = SCompleted,
       step_message = None, step_progress = None\<rparr>,
      \<lparr>name = ''execute'', label = ''Execute Transforms'', step_status = SRunning,
       step_message = Some ''running'', step_progress = None\<rparr>,
      \<lparr>name = ''cleanup'', label = ''Cleanup'', step_status = SPending,
       step_message = None, step_progress = None\<rparr>]"

definition sample_window :: ChatWindow where
  "sample_window =
     \<lparr>currentRun = Some sample_run, etlSteps = sample_steps, hitlMappings = [],
      showHitlApproval = False, hitlReady = False, workflowCompleted = False,
      workflowMappings = [], workflowTransformations = [], workflowCompletedRef = False,
      hitlReadyTimers = 0\<rparr>"

definition complete_event :: WorkflowUpdate where
  "complete_event =
     \<lparr>u_type = ''workflow_complete'', u_step = ''cleanup'', u_status = ''completed'',
      u_message = None, u_progress = Some 100, u_error = None,
      u_data = Some \<lparr>d_mappings = Some sample_mappings, d_transformations = Some [''SELECT 1''],
                     d_reviewed = None, d_pending = None\<rparr>\<rparr>"

definition cleanup_event :: WorkflowUpdate where
  "cleanup_event =
     \<lparr>u_type = ''workflow_update'', u_step = ''cleanup'', u_status = ''running'',
      u_message = Some ''Cleaning up'', u_progress = Some 95, u_error = None, u_data = None\<rparr>"

definition failed_event :: WorkflowUpdate where
  "failed_event =
     \<lparr>u_type = ''workflow_update'', u_step = ''execute'', u_status = ''failed'',
      u_message = Some ''Execute failed'', u_progress = Some 72,
      u_error = Some ''table not found'', u_data = None\<rparr>"

definition second_complete_event :: WorkflowUpdate where
  "second_complete_event =
     \<lparr>u_type = ''workflow_complete'', u_step = ''transform'', u_status = ''failed'',
      u_message = None, u_progress = None, u_error = None, u_data = None\<rparr>"

text \<open>The sample window after the workflow has completed and a late cleanup event came in.\<close>

definition late_window :: ChatWindow where
  "late_window = onMessage (onMessage sample_window complete_event) cleanup_event"

definition upload_response :: UploadResponse where
  "upload_response =
     \<lparr>resp_run_id = ''run-2'', resp_filename = ''loans.csv'',
      resp_gcs_uri = ''gs://uploads/loans.csv''\<rparr>"

text \<open>
  The sample window after its workflow has completed and a file has been uploaded, which
  starts the run \<open>run-2\<close>; and the same window after a pipeline has been started on a folder
  instead.
\<close>

definition uploaded_window :: ChatWindow where
  "uploaded_window =
     handleFileUpload (Some upload_response) (onMessage sample_window complete_event)"

definition restarted_window :: ChatWindow where
  "restarted_window =
     handleGCSWorkflowStarted sample_steps ''run-2'' ''lending''
       (onMessage sample_window complete_event)"

section \<open>The approval card: counts, decisions and submission\<close>

lemma counts_sum:
  "pendingCount c + approvedCount c + rejectedCount c = length (localMappings c)"
  unfolding pendingCount_def approvedCount_def rejectedCount_def
proof (induction "localMappings c" arbitrary: c)
  case Nil
  then show ?case by simp
next
  case (Cons m ms)
  from Cons(1)[of "c\<lparr>localMappings := ms\<rparr>"] Cons(2)[symmetric]
  show ?case by (cases "m_status m") simp_all
qed

lemmas card_handlers =
  handleApprove_def handleReject_def handleApproveAll_def handleRejectAll_def
  handleApproveSelected_def handleRejectSelected_def

lemma length_perform: "length (localMappings (perform a c)) = length (localMappings c)"
  by (cases a) (simp_all add: card_handlers)

lemma submitting_perform: "submitting (perform a c) = submitting c"
  by (cases a) (simp_all add: card_handlers)

lemma pendingCount_0:
  "pendingCount c = 0 \<longleftrightarrow> (\<forall>m \<in> set (localMappings c). m_status m \<noteq> Pending)"
  by (simp add: pendingCount_def filter_empty_conv)

text \<open>
  C6. For every list of candidates, \<^verbatim>\<open>handleSubmit\<close> sends one decision per candidate, in
  order and under the candidate's id: a candidate still pending is sent as approved, an
  approved or rejected one with its own status.
\<close>

theorem handleSubmit_default_approve:
  "length (handleSubmit c) = length (localMappings c)
   \<and> (\<forall>i < length (localMappings c).
        a_mapping_id (handleSubmit c ! i) = mapping_id (localMappings c ! i)
        \<and> (m_status (localMappings c ! i) = Pending
             \<longrightarrow> a_status (handleSubmit c ! i) = Approved)
        \<and> (m_status (localMappings c ! i) \<noteq> Pending
             \<longrightarrow> a_status (handleSubmit c ! i) = m_status (localMappings c ! i)))"
  by (simp add: handleSubmit_def)

theorem handleSubmit_default_approve_witness:
  "m_status (localMappings sample_card ! 0) = Pending
   \<and> map a_status (handleSubmit sample_card) = [Approved, Approved, Rejected]
   \<and> map a_mapping_id (handleSubmit sample_card) = [''m1'', ''m2'', ''m3'']"
  using handleSubmit_default_approve [of sample_card]
  by (simp add: sample_card_def sample_mappings_def handleSubmit_def)

text \<open>
  C7. Each of the six decision operations of the card keeps the number of candidates, and
  after it the approved, rejected and pending counts add up to that number (a status has
  no fourth value); \<^verbatim>\<open>allReviewed\<close> is exactly a pending count of zero, and a click on
  submit goes through exactly when in addition no submission is under way.
\<close>

theorem perform_keeps_counts:
  "length (localMappings (perform a c)) = length (localMappings c)
   \<and> pendingCount (perform a c) + approvedCount (perform a c) + rejectedCount (perform a c)
       = length (localMappings c)
   \<and> (\<forall>m \<in> set (localMappings (perform a c)). m_status m \<in> {Pending, Approved, Rejected})
   \<and> allReviewed (perform a c) = (pendingCount (perform a c) = 0)
   \<and> (clickSubmit (perform a c) \<noteq> None)
       = (\<not> submitting c \<and> pendingCount (perform a c) = 0)"
proof -
  have "\<forall>m \<in> set (localMappings (perform a c)). m_status m \<in> {Pending, Approved, Rejected}"
  proof
    fix m
    show "m_status m \<in> {Pending, Approved, Rejected}" by (cases "m_status m") simp_all
  qed
  then show ?thesis
    by (simp add: counts_sum length_perform submitting_perform allReviewed_def
        clickSubmit_def submitDisabled_def)
qed

theorem perform_keeps_counts_witness:
  "pendingCount sample_card = 1
   \<and> clickSubmit sample_card = None
   \<and> pendingCount (perform ApproveSelected sample_card) = 0
   \<and> approvedCount (perform ApproveSelected sample_card) = 2
   \<and> rejectedCount (perform ApproveSelected sample_card) = 1
   \<and> length (localMappings (perform ApproveSelected sample_card)) = 3
   \<and> clickSubmit (perform ApproveSelected sample_card) \<noteq> None"
  using perform_keeps_counts [of ApproveSelected sample_card]
  by (simp add: sample_card_def sample_mappings_def handleApproveSelected_def pendingCount_def
      approvedCount_def rejectedCount_def clickSubmit_def submitDisabled_def allReviewed_def)

text \<open>
  C8. Approving (rejecting) the same mapping id twice gives the candidate list that
  approving (rejecting) it once gives, and of two different decisions for one id the
  later one stands.
\<close>

theorem decision_idempotent:
  "handleApprove i (handleApprove i c) = handleApprove i c
   \<and> handleReject i (handleReject i c) = handleReject i c
   \<and> handleApprove i (handleReject i c) = handleApprove i c
   \<and> handleReject i (handleApprove i c) = handleReject i c"
  by (simp add: handleApprove_def handleReject_def comp_def)

theorem decision_idempotent_witness:
  "map m_status (localMappings (handleReject ''m1'' (handleReject ''m1'' sample_card)))
     = [Rejected, Approved, Rejected]
   \<and> handleReject ''m1'' (handleReject ''m1'' sample_card) = handleReject ''m1'' sample_card
   \<and> handleApprove ''m1'' (handleReject ''m1'' sample_card) = handleApprove ''m1'' sample_card"
  using decision_idempotent [of "''m1''" sample_card]
  by (simp add: sample_card_def sample_mappings_def handleReject_def)

text \<open>
  C10. A click on the submit button goes through only with a pending count of zero; the
  batch it sends then has one decision per candidate, each with the candidate's own
  status, which is approved or rejected: the branch of \<^verbatim>\<open>handleSubmit\<close> that turns pending
  into approved is not taken.
\<close>

theorem clickSubmit_decided:
  assumes "clickSubmit c = Some as"
  shows "pendingCount c = 0
    \<and> as = map (\<lambda>m. \<lparr>a_mapping_id = mapping_id m, a_status = m_status m\<rparr>) (localMappings c)
    \<and> length as = length (localMappings c)
    \<and> (\<forall>a \<in> set as. a_status a = Approved \<or> a_status a = Rejected)"
proof -
  from assms have p: "pendingCount c = 0" and as: "as = handleSubmit c"
    by (auto simp: clickSubmit_def submitDisabled_def allReviewed_def split: if_splits)
  from p have np: "\<forall>m \<in> set (localMappings c). m_status m \<noteq> Pending"
    by (simp add: pendingCount_0)
  then have eq: "handleSubmit c =
      map (\<lambda>m. \<lparr>a_mapping_id = mapping_id m, a_status = m_status m\<rparr>) (localMappings c)"
    by (simp add: handleSubmit_def)
  have "\<forall>a \<in> set (handleSubmit c). a_status a = Approved \<or> a_status a = Rejected"
  proof
    fix a
    assume "a \<in> set (handleSubmit c)"
    then obtain m where "m \<in> set (localMappings c)"
      and "a = \<lparr>a_mapping_id = mapping_id m, a_status = m_status m\<rparr>"
      unfolding eq by auto
    with np show "a_status a = Approved \<or> a_status a = Rejected"
      by (cases "m_status m") auto
  qed
  with p as eq show ?thesis by simp
qed

theorem clickSubmit_decided_witness:
  "clickSubmit (handleReject ''m1'' sample_card)
     = Some [\<lparr>a_mapping_id = ''m1'', a_status = Rejected\<rparr>,
             \<lparr>a_mapping_id = ''m2'', a_status = Approved\<rparr>,
             \<lparr>a_mapping_id = ''m3'', a_status = Rejected\<rparr>]
   \<and> pendingCount (handleReject ''m1'' sample_card) = 0"
proof -
  have click: "clickSubmit (handleReject ''m1'' sample_card)
     = Some [\<lparr>a_mapping_id = ''m1'', a_status = Rejected\<rparr>,
             \<lparr>a_mapping_id = ''m2'', a_status = Approved\<rparr>,
             \<lparr>a_mapping_id = ''m3'', a_status = Rejected\<rparr>]"
    by (simp add: sample_card_def sample_mappings_def handleReject_def clickSubmit_def
        submitDisabled_def allReviewed_def pendingCount_def handleSubmit_def)
  from clickSubmit_decided [OF click] click show ?thesis by simp
qed

section \<open>The step list\<close>

text \<open>
  C9, as stated: the names of \<^verbatim>\<open>ETL_STEPS\<close> are not the specification's step list.
\<close>

theorem ETL_STEPS_not_spec_list: "map def_name ETL_STEPS \<noteq> spec_step_list"
  by (simp add: ETL_STEPS_def spec_step_list_def)

text \<open>
  C9, amended. The program has eleven steps, named download, profiler, staging, mapper,
  hitl, create_tables, transform, execute, validator, feedback, cleanup in this order, no
  name twice. The specification's list has eleven names too, and the two lists differ at
  the second, third, fourth and ninth step only (profiler, staging, mapper, validator for
  profile, stage, map, validate).
\<close>

theorem ETL_STEPS_names:
  "map def_name ETL_STEPS =
     [''download'', ''profiler'', ''staging'', ''mapper'', ''hitl'', ''create_tables'',
      ''transform'', ''execute'', ''validator'', ''feedback'', ''cleanup'']
   \<and> length ETL_STEPS = 11
   \<and> distinct (map def_name ETL_STEPS)
   \<and> length spec_step_list = 11
   \<and> filter (\<lambda>i. map def_name ETL_STEPS ! i \<noteq> spec_step_list ! i) [0..<11] = [1, 2, 3, 8]"
  by (simp add: ETL_STEPS_def spec_step_list_def upt_rec)

section \<open>The event handler of the chat window\<close>

lemma length_updateETLStep: "length (updateETLStep n st msg steps) = length steps"
  by (simp add: updateETLStep_def)

lemma nth_updateETLStep:
  "i < length steps \<Longrightarrow>
   updateETLStep n st msg steps ! i =
     (if name (steps ! i) = n then (steps ! i)\<lparr>step_status := st, step_message := msg\<rparr>
      else steps ! i)"
  by (simp add: updateETLStep_def)

lemma openNames_Cons:
  "openNames (x # xs) =
     (if step_status x = SPending \<or> step_status x = SRunning
      then insert (name x) (openNames xs) else openNames xs)"
  by (auto simp: openNames_def)

text \<open>
  The loop over the steps, with any store and any list walked: every record whose name is
  the name of a pending or running step of the list is completed, every other one stays.
\<close>

lemma foldl_complete:
  "foldl (\<lambda>store step.
            if step_status step = SPending \<or> step_status step = SRunning
            then updateETLStep (name step) SCompleted None store
            else store) store xs
   = map (\<lambda>s. if name s \<in> openNames xs
              then s\<lparr>step_status := SCompleted, step_message := None\<rparr> else s) store"
proof (induction xs arbitrary: store)
  case Nil
  then show ?case by (simp add: openNames_def)
next
  case (Cons x xs)
  show ?case by (simp add: Cons.IH openNames_Cons updateETLStep_def)
qed

lemma completeOpenSteps_eq:
  "completeOpenSteps steps =
     map (\<lambda>s. if name s \<in> openNames steps
              then s\<lparr>step_status := SCompleted, step_message := None\<rparr> else s) steps"
  by (simp add: completeOpenSteps_def foldl_complete)

lemma completeOpenSteps_open:
  assumes "i < length steps"
    and "step_status (steps ! i) = SPending \<or> step_status (steps ! i) = SRunning"
  shows "step_status (completeOpenSteps steps ! i) = SCompleted"
proof -
  from assms have "name (steps ! i) \<in> openNames steps"
    by (auto simp: openNames_def)
  with assms(1) show ?thesis by (simp add: completeOpenSteps_eq)
qed

lemma completeOpenSteps_closed:
  "s \<in> set (completeOpenSteps steps) \<Longrightarrow> step_status s \<noteq> SPending \<and> step_status s \<noteq> SRunning"
  by (auto simp: completeOpenSteps_eq openNames_def)

lemma onMessage_complete:
  assumes "currentRun s = Some r" and "u_type u = ''workflow_complete''"
  shows "onMessage s u =
     s\<lparr>workflowCompletedRef := True, workflowCompleted := True,
       etlSteps := completeOpenSteps (etlSteps s),
       currentRun := Some (r\<lparr>run_status := ''completed'', current_step := ''completed'',
                             run_progress := Some 100\<rparr>),
       showHitlApproval := False, hitlMappings := [], hitlReady := False\<rparr>"
  using assms by (simp add: onMessage_def updateCurrentRun_def)

lemma onMessage_latched:
  assumes "currentRun s = Some r" and "workflowCompletedRef s \<or> workflowCompleted s"
    and "u_type u \<noteq> ''workflow_complete''"
  shows "onMessage s u =
     s\<lparr>etlSteps :=
         updateETLStep (u_step u) (completedStepStatus (u_status u)) (u_message u) (etlSteps s)\<rparr>"
  using assms by (simp add: onMessage_def)

lemma onMessage_no_run: "currentRun s = None \<Longrightarrow> onMessage s u = s"
  by (simp add: onMessage_def)

lemma completed_inv_first: "u_type c = ''workflow_complete'' \<Longrightarrow> completed_inv (onMessage s c)"
  by (cases "currentRun s")
    (simp_all add: completed_inv_def onMessage_no_run onMessage_complete)

lemma completed_inv_step:
  assumes "completed_inv s"
  shows "currentRun (onMessage s u) = currentRun s \<and> completed_inv (onMessage s u)"
proof (cases "currentRun s")
  case None
  with assms show ?thesis by (simp add: onMessage_no_run)
next
  case (Some r)
  with assms have latch: "workflowCompletedRef s" and r: "run_status r = ''completed''"
    "current_step r = ''completed''" "run_progress r = Some 100"
    by (simp_all add: completed_inv_def)
  show ?thesis
  proof (cases "u_type u = ''workflow_complete''")
    case True
    from r have "r\<lparr>run_status := ''completed'', current_step := ''completed'',
                   run_progress := Some 100\<rparr> = r"
      by simp
    with Some True r show ?thesis
      by (simp add: onMessage_complete completed_inv_def)
  next
    case False
    with Some latch r show ?thesis
      by (simp add: onMessage_latched completed_inv_def)
  qed
qed

lemma completed_inv_foldl:
  "completed_inv s \<Longrightarrow> currentRun (foldl onMessage s us) = currentRun s"
proof (induction us arbitrary: s)
  case Nil
  then show ?case by simp
next
  case (Cons u us)
  from completed_inv_step [OF Cons.prems, of u] Cons.IH [of "onMessage s u"]
  show ?case by simp
qed

lemmas sample_defs =
  sample_window_def sample_run_def sample_steps_def complete_event_def cleanup_event_def
  failed_event_def second_complete_event_def

lemmas handler_defs =
  onMessage_def updateCurrentRun_def updateETLStep_def completeOpenSteps_def
  completedStepStatus_def stepStatus_def workflowStatus_def dataMappings_def
  dataTransformations_def

text \<open>
  C1. Once a \<^verbatim>\<open>workflow_complete\<close> event has been handled, no sequence of later events of
  any kind (a late cleanup update, a second \<^verbatim>\<open>workflow_complete\<close>) changes the run record,
  and so the status, progress and current step that the window shows stay as that event
  left them.
\<close>

theorem run_unchanged_after_complete:
  assumes "u_type c = ''workflow_complete''"
  shows "currentRun (foldl onMessage (onMessage s c) us) = currentRun (onMessage s c)
    \<and> runView (foldl onMessage (onMessage s c) us) = runView (onMessage s c)"
  using completed_inv_foldl [OF completed_inv_first [OF assms]] by (simp add: runView_def)

theorem run_unchanged_after_complete_witness:
  "u_type complete_event = ''workflow_complete''
   \<and> runView (onMessage sample_window complete_event)
       = Some (''completed'', Some 100, ''completed'')
   \<and> runView (foldl onMessage (onMessage sample_window complete_event)
                [cleanup_event, failed_event, second_complete_event])
       = Some (''completed'', Some 100, ''completed'')"
proof -
  have c: "u_type complete_event = ''workflow_complete''"
    by (simp add: complete_event_def)
  have v: "runView (onMessage sample_window complete_event)
       = Some (''completed'', Some 100, ''completed'')"
    by (simp add: runView_def onMessage_def updateCurrentRun_def sample_defs)
  from run_unchanged_after_complete
    [OF c, of sample_window "[cleanup_event, failed_event, second_complete_event]"] c v
  show ?thesis by simp
qed

text \<open>
  C2. With a current run, a \<^verbatim>\<open>workflow_complete\<close> event sets the run's status to completed
  and its progress to 100 (and the current step to "completed"), leaves no step pending or
  running, every step that was so being completed, and ends the call there: besides the
  latch and the cleared approval state nothing else of the window changes, in particular
  the payload of the event is not stored.
\<close>

theorem workflow_complete_effect:
  assumes "currentRun s = Some r" and "u_type u = ''workflow_complete''"
  shows "onMessage s u =
           s\<lparr>workflowCompletedRef := True, workflowCompleted := True,
             etlSteps := completeOpenSteps (etlSteps s),
             currentRun := Some (r\<lparr>run_status := ''completed'', current_step := ''completed'',
                                   run_progress := Some 100\<rparr>),
             showHitlApproval := False, hitlMappings := [], hitlReady := False\<rparr>
    \<and> runView (onMessage s u) = Some (''completed'', Some 100, ''completed'')
    \<and> length (etlSteps (onMessage s u)) = length (etlSteps s)
    \<and> (\<forall>i < length (etlSteps s).
          step_status (etlSteps s ! i) = SPending \<or> step_status (etlSteps s ! i) = SRunning
          \<longrightarrow> step_status (etlSteps (onMessage s u) ! i) = SCompleted)
    \<and> (\<forall>x \<in> set (etlSteps (onMessage s u)).
          step_status x \<noteq> SPending \<and> step_status x \<noteq> SRunning)
    \<and> workflowMappings (onMessage s u) = workflowMappings s
    \<and> workflowTransformations (onMessage s u) = workflowTransformations s"
proof -
  note eq = onMessage_complete [OF assms]
  have "runView (onMessage s u) = Some (''completed'', Some 100, ''completed'')"
    by (simp add: eq runView_def)
  moreover have "length (etlSteps (onMessage s u)) = length (etlSteps s)"
    by (simp add: eq completeOpenSteps_eq)
  moreover have "\<forall>i < length (etlSteps s).
      step_status (etlSteps s ! i) = SPending \<or> step_status (etlSteps s ! i) = SRunning
      \<longrightarrow> step_status (etlSteps (onMessage s u) ! i) = SCompleted"
    by (simp add: eq completeOpenSteps_open)
  moreover have "\<forall>x \<in> set (etlSteps (onMessage s u)).
      step_status x \<noteq> SPending \<and> step_status x \<noteq> SRunning"
    using completeOpenSteps_closed [of _ "etlSteps s"] by (simp add: eq)
  moreover have "workflowMappings (onMessage s u) = workflowMappings s"
    "workflowTransformations (onMessage s u) = workflowTransformations s"
    by (simp_all add: eq)
  ultimately show ?thesis using eq by simp
qed

theorem workflow_complete_effect_witness:
  "currentRun sample_window = Some sample_run
   \<and> u_type complete_event = ''workflow_complete''
   \<and> map step_status (etlSteps sample_window) = [SCompleted, SRunning, SPending]
   \<and> map step_status (etlSteps (onMessage sample_window complete_event))
       = [SCompleted, SCompleted, SCompleted]
   \<and> runView (onMessage sample_window complete_event)
       = Some (''completed'', Some 100, ''completed'')
   \<and> workflowMappings (onMessage sample_window complete_event) = []"
proof -
  have r: "currentRun sample_window = Some sample_run"
    by (simp add: sample_window_def)
  have c: "u_type complete_event = ''workflow_complete''"
    by (simp add: complete_event_def)
  have st: "map step_status (etlSteps sample_window) = [SCompleted, SRunning, SPending]"
    by (simp add: sample_window_def sample_steps_def)
  have st': "map step_status (completeOpenSteps (etlSteps sample_window))
       = [SCompleted, SCompleted, SCompleted]"
    by (simp add: sample_window_def sample_steps_def completeOpenSteps_def updateETLStep_def)
  have wm: "workflowMappings sample_window = []"
    by (simp add: sample_window_def)
  note eff = workflow_complete_effect [OF r c]
  from eff have eq: "onMessage sample_window complete_event =
      sample_window\<lparr>workflowCompletedRef := True, workflowCompleted := True,
        etlSteps := completeOpenSteps (etlSteps sample_window),
        currentRun := Some (sample_run\<lparr>run_status := ''completed'',
                              current_step := ''completed'', run_progress := Some 100\<rparr>),
        showHitlApproval := False, hitlMappings := [], hitlReady := False\<rparr>"
    by (rule conjunct1)
  from eff have rv: "runView (onMessage sample_window complete_event)
       = Some (''completed'', Some 100, ''completed'')"
    by blast
  have "map step_status (etlSteps (onMessage sample_window complete_event))
       = [SCompleted, SCompleted, SCompleted]"
    by (simp add: eq st')
  moreover have "workflowMappings (onMessage sample_window complete_event) = []"
    by (simp add: eq wm)
  ultimately show ?thesis using r c st rv by blast
qed

text \<open>The late window, computed.\<close>

lemma late_window_eq:
  "late_window =
    sample_window\<lparr>workflowCompletedRef := True, workflowCompleted := True,
      etlSteps :=
        [\<lparr>name = ''transform'', label = ''Generate Transforms'', step_status = SCompleted,
          step_message = None, step_progress = None\<rparr>,
         \<lparr>name = ''execute'', label = ''Execute Transforms'', step_status = SCompleted,
          step_message = None, step_progress = None\<rparr>,
         \<lparr>name = ''cleanup'', label = ''Cleanup'', step_status = SRunning,
          step_message = Some ''Cleaning up'', step_progress = None\<rparr>],
      currentRun := Some (sample_run\<lparr>run_status := ''completed'',
                            current_step := ''completed'', run_progress := Some 100\<rparr>)\<rparr>"
  by (simp add: late_window_def handler_defs sample_defs)

text \<open>
  C3, as stated, fails for a second \<^verbatim>\<open>workflow_complete\<close> event. After completion a late
  cleanup update has set the cleanup step to running; a further \<^verbatim>\<open>workflow_complete\<close> that
  names the transform step with status failed then completes the cleanup step, which it
  does not name, and leaves the transform step as it was, where the claim has the transform
  step set to error and nothing else touched.
\<close>

theorem second_complete_not_step_only:
  "workflowCompletedRef late_window
   \<and> map step_status (etlSteps late_window) = [SCompleted, SCompleted, SRunning]
   \<and> map step_status (etlSteps (onMessage late_window second_complete_event))
       = [SCompleted, SCompleted, SCompleted]
   \<and> map step_status
        (updateETLStep (u_step second_complete_event)
           (completedStepStatus (u_status second_complete_event))
           (u_message second_complete_event) (etlSteps late_window))
       = [SError, SCompleted, SRunning]
   \<and> onMessage late_window second_complete_event \<noteq>
       late_window\<lparr>etlSteps :=
         updateETLStep (u_step second_complete_event)
           (completedStepStatus (u_status second_complete_event))
           (u_message second_complete_event) (etlSteps late_window)\<rparr>"
proof -
  note lw = late_window_eq
  have a: "workflowCompletedRef late_window"
    and b: "map step_status (etlSteps late_window) = [SCompleted, SCompleted, SRunning]"
    by (simp_all add: lw)
  have c: "map step_status (etlSteps (onMessage late_window second_complete_event))
       = [SCompleted, SCompleted, SCompleted]"
    by (simp add: lw handler_defs sample_defs)
  have d: "map step_status
        (updateETLStep (u_step second_complete_event)
           (completedStepStatus (u_status second_complete_event))
           (u_message second_complete_event) (etlSteps late_window))
       = [SError, SCompleted, SRunning]"
    by (simp add: lw handler_defs sample_defs)
  have "map step_status (etlSteps (onMessage late_window second_complete_event)) \<noteq>
      map step_status (etlSteps (late_window\<lparr>etlSteps :=
         updateETLStep (u_step second_complete_event)
           (completedStepStatus (u_status second_complete_event))
           (u_message second_complete_event) (etlSteps late_window)\<rparr>))"
    by (simp add: c d)
  then have "onMessage late_window second_complete_event \<noteq>
       late_window\<lparr>etlSteps :=
         updateETLStep (u_step second_complete_event)
           (completedStepStatus (u_status second_complete_event))
           (u_message second_complete_event) (etlSteps late_window)\<rparr>"
    by metis
  with a b c d show ?thesis by blast
qed

text \<open>
  C3, amended. For every event other than a further \<^verbatim>\<open>workflow_complete\<close> that arrives once
  the workflow has completed, the handler writes the event's status, mapped to completed
  (for completed), error (for failed or error) or running (for anything else), and its
  message to the step record the event names, and changes nothing else: the run with its
  status and progress, every other step record and the rest of the window stay.
\<close>

theorem late_update_step_only:
  assumes "currentRun s = Some r" and "workflowCompletedRef s \<or> workflowCompleted s"
    and "u_type u \<noteq> ''workflow_complete''"
  shows "onMessage s u =
           s\<lparr>etlSteps :=
               updateETLStep (u_step u) (completedStepStatus (u_status u)) (u_message u)
                 (etlSteps s)\<rparr>
    \<and> completedStepStatus (u_status u) =
        (if u_status u = ''completed'' then SCompleted
         else if u_status u = ''failed'' \<or> u_status u = ''error'' then SError else SRunning)
    \<and> currentRun (onMessage s u) = currentRun s
    \<and> length (etlSteps (onMessage s u)) = length (etlSteps s)
    \<and> (\<forall>i < length (etlSteps s).
          (name (etlSteps s ! i) = u_step u \<longrightarrow>
             etlSteps (onMessage s u) ! i =
               (etlSteps s ! i)\<lparr>step_status := completedStepStatus (u_status u),
                                 step_message := u_message u\<rparr>)
          \<and> (name (etlSteps s ! i) \<noteq> u_step u \<longrightarrow>
                etlSteps (onMessage s u) ! i = etlSteps s ! i))"
proof -
  note eq = onMessage_latched [OF assms]
  have "\<forall>i < length (etlSteps s).
          (name (etlSteps s ! i) = u_step u \<longrightarrow>
             etlSteps (onMessage s u) ! i =
               (etlSteps s ! i)\<lparr>step_status := completedStepStatus (u_status u),
                                 step_message := u_message u\<rparr>)
          \<and> (name (etlSteps s ! i) \<noteq> u_step u \<longrightarrow>
                etlSteps (onMessage s u) ! i = etlSteps s ! i)"
    by (simp add: eq nth_updateETLStep)
  moreover have "currentRun (onMessage s u) = currentRun s"
    and "length (etlSteps (onMessage s u)) = length (etlSteps s)"
    by (simp_all add: eq length_updateETLStep)
  moreover have "completedStepStatus (u_status u) =
        (if u_status u = ''completed'' then SCompleted
         else if u_status u = ''failed'' \<or> u_status u = ''error'' then SError else SRunning)"
    by (simp add: completedStepStatus_def)
  ultimately show ?thesis using eq by blast
qed

theorem late_update_step_only_witness:
  "currentRun (onMessage sample_window complete_event) \<noteq> None
   \<and> workflowCompletedRef (onMessage sample_window complete_event)
   \<and> u_type cleanup_event \<noteq> ''workflow_complete''
   \<and> currentRun late_window = currentRun (onMessage sample_window complete_event)
   \<and> length (etlSteps late_window) = 3
   \<and> map step_status (etlSteps late_window) = [SCompleted, SCompleted, SRunning]"
proof -
  have r: "currentRun (onMessage sample_window complete_event) =
      Some (sample_run\<lparr>run_status := ''completed'', current_step := ''completed'',
                        run_progress := Some 100\<rparr>)"
    by (simp add: onMessage_def updateCurrentRun_def sample_defs)
  have l: "workflowCompletedRef (onMessage sample_window complete_event)
      \<or> workflowCompleted (onMessage sample_window complete_event)"
    and l': "workflowCompletedRef (onMessage sample_window complete_event)"
    by (simp_all add: onMessage_def sample_defs)
  have t: "u_type cleanup_event \<noteq> ''workflow_complete''"
    by (simp add: cleanup_event_def)
  have n: "length (etlSteps (onMessage sample_window complete_event)) = 3"
    by (simp add: onMessage_def completeOpenSteps_def updateETLStep_def sample_defs)
  note eff = late_update_step_only [OF r l t]
  from eff have "currentRun (onMessage (onMessage sample_window complete_event) cleanup_event)
      = currentRun (onMessage sample_window complete_event)"
    and "length (etlSteps (onMessage (onMessage sample_window complete_event) cleanup_event))
      = length (etlSteps (onMessage sample_window complete_event))"
    by blast+
  moreover have "map step_status (etlSteps late_window) = [SCompleted, SCompleted, SRunning]"
    by (simp add: late_window_eq)
  ultimately show ?thesis using r l' t n
    by (simp add: late_window_def)
qed

text \<open>
  Where both completion flags are unset, a failing update does what C4 says. With a
  current run, a \<^verbatim>\<open>workflow_update\<close> whose status is failed or error sets the run's status
  to failed and its error to the event's error (the current step and the progress are taken
  from the event too), sets the record of the step the event names to error with the
  event's message, and changes no other step record, so that no other step is marked
  running or completed.
\<close>

theorem failed_update_effect:
  assumes "currentRun s = Some r"
    and "\<not> workflowCompletedRef s" and "\<not> workflowCompleted s"
    and "u_type u = ''workflow_update''"
    and "u_status u = ''failed'' \<or> u_status u = ''error''"
  shows "onMessage s u =
           s\<lparr>currentRun :=
               Some (r\<lparr>run_status := ''failed'', current_step := u_step u,
                       run_progress := u_progress u, run_error := u_error u\<rparr>),
             etlSteps := updateETLStep (u_step u) SError (u_message u) (etlSteps s)\<rparr>
    \<and> map_option run_status (currentRun (onMessage s u)) = Some ''failed''
    \<and> map_option run_error (currentRun (onMessage s u)) = Some (u_error u)
    \<and> length (etlSteps (onMessage s u)) = length (etlSteps s)
    \<and> (\<forall>i < length (etlSteps s).
          (name (etlSteps s ! i) = u_step u \<longrightarrow>
             etlSteps (onMessage s u) ! i =
               (etlSteps s ! i)\<lparr>step_status := SError, step_message := u_message u\<rparr>)
          \<and> (name (etlSteps s ! i) \<noteq> u_step u \<longrightarrow>
                etlSteps (onMessage s u) ! i = etlSteps s ! i))"
proof -
  have eq: "onMessage s u =
           s\<lparr>currentRun :=
               Some (r\<lparr>run_status := ''failed'', current_step := u_step u,
                       run_progress := u_progress u, run_error := u_error u\<rparr>),
             etlSteps := updateETLStep (u_step u) SError (u_message u) (etlSteps s)\<rparr>"
    using assms
    by (auto simp add: onMessage_def updateCurrentRun_def workflowStatus_def stepStatus_def
        split: option.splits)
  have "\<forall>i < length (etlSteps s).
          (name (etlSteps s ! i) = u_step u \<longrightarrow>
             etlSteps (onMessage s u) ! i =
               (etlSteps s ! i)\<lparr>step_status := SError, step_message := u_message u\<rparr>)
          \<and> (name (etlSteps s ! i) \<noteq> u_step u \<longrightarrow>
                etlSteps (onMessage s u) ! i = etlSteps s ! i)"
    by (simp add: eq nth_updateETLStep)
  moreover have "map_option run_status (currentRun (onMessage s u)) = Some ''failed''"
    and "map_option run_error (currentRun (onMessage s u)) = Some (u_error u)"
    and "length (etlSteps (onMessage s u)) = length (etlSteps s)"
    by (simp_all add: eq length_updateETLStep)
  ultimately show ?thesis using eq by blast
qed

theorem failed_update_effect_witness:
  "currentRun sample_window = Some sample_run
   \<and> \<not> workflowCompletedRef sample_window \<and> \<not> workflowCompleted sample_window
   \<and> u_type failed_event = ''workflow_update'' \<and> u_status failed_event = ''failed''
   \<and> map_option run_status (currentRun (onMessage sample_window failed_event)) = Some ''failed''
   \<and> map_option run_error (currentRun (onMessage sample_window failed_event))
       = Some (Some ''table not found'')
   \<and> map step_status (etlSteps (onMessage sample_window failed_event))
       = [SCompleted, SError, SPending]"
proof -
  have r: "currentRun sample_window = Some sample_run"
    and l1: "\<not> workflowCompletedRef sample_window"
    and l2: "\<not> workflowCompleted sample_window"
    by (simp_all add: sample_window_def)
  have t: "u_type failed_event = ''workflow_update''"
    and f: "u_status failed_event = ''failed''"
    and e: "u_error failed_event = Some ''table not found''"
    by (simp_all add: failed_event_def)
  from f have f': "u_status failed_event = ''failed'' \<or> u_status failed_event = ''error''"
    by simp
  note eff = failed_update_effect [OF r l1 l2 t f']
  from eff have eq: "onMessage sample_window failed_event =
      sample_window\<lparr>currentRun :=
          Some (sample_run\<lparr>run_status := ''failed'', current_step := u_step failed_event,
                  run_progress := u_progress failed_event, run_error := u_error failed_event\<rparr>),
        etlSteps := updateETLStep (u_step failed_event) SError (u_message failed_event)
                      (etlSteps sample_window)\<rparr>"
    by (rule conjunct1)
  have st: "map step_status (etlSteps (onMessage sample_window failed_event))
       = [SCompleted, SError, SPending]"
    unfolding eq
    by (simp add: updateETLStep_def sample_window_def sample_steps_def failed_event_def)
  from eff have "map_option run_status (currentRun (onMessage sample_window failed_event))
        = Some ''failed''"
    and "map_option run_error (currentRun (onMessage sample_window failed_event))
        = Some (u_error failed_event)"
    by blast+
  with r l1 l2 t f e st show ?thesis by simp
qed

text \<open>
  C4. A failing update for a run that is not terminal can leave the run as it is. The
  sample run completes, which sets the completion flags; a file upload then starts the run
  \<open>run-2\<close>, pending, and leaves the flags set, where the start of a pipeline on a folder
  resets them. The update "execute failed" for \<open>run-2\<close> then takes the branch for completed
  workflows: the execute step is set to error, but the run stays pending and without error.
  After the start on a folder the same update sets the run to failed with the event's
  error.
\<close>

theorem failed_update_after_upload:
  "workflowCompletedRef uploaded_window
   \<and> map_option run_id (currentRun uploaded_window) = Some ''run-2''
   \<and> map_option run_status (currentRun uploaded_window) = Some ''pending''
   \<and> u_type failed_event = ''workflow_update'' \<and> u_status failed_event = ''failed''
   \<and> map_option run_status (currentRun (onMessage uploaded_window failed_event))
       = Some ''pending''
   \<and> map_option run_error (currentRun (onMessage uploaded_window failed_event)) = Some None
   \<and> map step_status (etlSteps (onMessage uploaded_window failed_event))
       = [SCompleted, SError, SCompleted]
   \<and> \<not> workflowCompletedRef restarted_window
   \<and> map_option run_status (currentRun (onMessage restarted_window failed_event))
       = Some ''failed''
   \<and> map_option run_error (currentRun (onMessage restarted_window failed_event))
       = Some (Some ''table not found'')"
proof -
  have compl: "onMessage sample_window complete_event =
      sample_window\<lparr>workflowCompletedRef := True, workflowCompleted := True,
        etlSteps := completeOpenSteps sample_steps,
        currentRun := Some (sample_run\<lparr>run_status := ''completed'',
                              current_step := ''completed'', run_progress := Some 100\<rparr>)\<rparr>"
    by (simp add: onMessage_def updateCurrentRun_def sample_window_def complete_event_def)
  have steps: "completeOpenSteps sample_steps =
      [\<lparr>name = ''transform'', label = ''Generate Transforms'', step_status = SCompleted,
        step_message = None, step_progress = None\<rparr>,
       \<lparr>name = ''execute'', label = ''Execute Transforms'', step_status = SCompleted,
        step_message = None, step_progress = None\<rparr>,
       \<lparr>name = ''cleanup'', label = ''Cleanup'', step_status = SCompleted,
        step_message = None, step_progress = None\<rparr>]"
    by (simp add: completeOpenSteps_def updateETLStep_def sample_steps_def)
  have uw: "uploaded_window =
      sample_window\<lparr>workflowCompletedRef := True, workflowCompleted := True,
        etlSteps := completeOpenSteps sample_steps,
        currentRun :=
          Some \<lparr>run_id = ''run-2'', filename = Some ''loans.csv'', folder_path = None,
                gcs_uri = Some ''gs://uploads/loans.csv'', source_type = None,
                run_status = ''pending'', current_step = ''initialized'',
                run_progress = Some 0, run_error = None\<rparr>\<rparr>"
    unfolding uploaded_window_def compl
    by (simp add: handleFileUpload_def setCurrentRun_def upload_response_def)
  have up: "workflowCompletedRef uploaded_window"
    "map_option run_id (currentRun uploaded_window) = Some ''run-2''"
    "map_option run_status (currentRun uploaded_window) = Some ''pending''"
    by (simp_all add: uw)
  have ev: "u_type failed_event = ''workflow_update''" "u_status failed_event = ''failed''"
    by (simp_all add: failed_event_def)
  have after_up: "onMessage uploaded_window failed_event =
      uploaded_window\<lparr>etlSteps :=
        updateETLStep ''execute'' SError (Some ''Execute failed'') (etlSteps uploaded_window)\<rparr>"
    by (simp add: uw onMessage_def completedStepStatus_def failed_event_def)
  have r1: "map_option run_status (currentRun (onMessage uploaded_window failed_event))
       = Some ''pending''"
    and r2: "map_option run_error (currentRun (onMessage uploaded_window failed_event))
       = Some None"
    unfolding after_up by (simp_all add: uw)
  have r3: "map step_status (etlSteps (onMessage uploaded_window failed_event))
       = [SCompleted, SError, SCompleted]"
    unfolding after_up by (simp add: uw steps updateETLStep_def)
  have re: "\<not> workflowCompletedRef restarted_window"
    by (simp add: restarted_window_def handleGCSWorkflowStarted_def setCurrentRun_def)
  have r4: "map_option run_status (currentRun (onMessage restarted_window failed_event))
       = Some ''failed''"
    and r5: "map_option run_error (currentRun (onMessage restarted_window failed_event))
       = Some (Some ''table not found'')"
    by (simp_all add: restarted_window_def handleGCSWorkflowStarted_def setCurrentRun_def
        onMessage_def updateCurrentRun_def workflowStatus_def dataMappings_def
        dataTransformations_def failed_event_def)
  from up ev r1 r2 r3 re r4 r5 show ?thesis by blast
qed

section \<open>The progress shown by the progress card\<close>

lemma newProgress_range: "0 \<le> newProgress p \<and> newProgress p \<le> 100"
  by (simp add: newProgress_def)

text \<open>
  As long as the shown value is the content of the ref and the run id stays, a render
  shows the maximum of the ref and the clamped new value, and the two stay equal.
\<close>

lemma render_same_run:
  assumes "smoothProgress c = maxProgressRef c" and "runId p = effectDeps c"
  shows "smoothProgress (render c p) = maxProgressRef (render c p)
    \<and> effectDeps (render c p) = effectDeps c
    \<and> smoothProgress c \<le> smoothProgress (render c p)
    \<and> (overallProgress p \<noteq> memoDeps c \<longrightarrow>
          smoothProgress (render c p) = max (smoothProgress c) (newProgress (overallProgress p)))"
  using assms by (simp add: render_def smoothProgressMemo_def Let_def)

lemma shownFrom_sorted:
  assumes "smoothProgress c = maxProgressRef c" and "\<forall>p \<in> set ps. runId p = effectDeps c"
  shows "sorted (smoothProgress c # shownFrom c ps)"
  using assms
proof (induction ps arbitrary: c)
  case Nil
  then show ?case by simp
next
  case (Cons p ps)
  from Cons.prems have rid: "runId p = effectDeps c" by simp
  note step = render_same_run [OF Cons.prems(1) rid]
  from step Cons.prems(2) have "\<forall>q \<in> set ps. runId q = effectDeps (render c p)"
    by simp
  with step Cons.IH [of "render c p"]
  have tl: "sorted (smoothProgress (render c p) # shownFrom (render c p) ps)"
    by blast
  from step have le: "smoothProgress c \<le> smoothProgress (render c p)" by blast
  from tl le show ?case by (auto simp: order_trans)
qed

text \<open>
  A card that is mounted with a progress of 0 (as the window mounts it when a pipeline is
  started) and sees one run only never shows less than it showed before.
\<close>

lemma shown_first_run_sorted:
  assumes "newProgress (overallProgress p) = 0" and "\<forall>q \<in> set ps. runId q = runId p"
  shows "sorted (shown (p # ps))"
proof -
  from assms(1) have "smoothProgress (mount p) = maxProgressRef (mount p)"
    by (simp add: mount_def smoothProgressMemo_def)
  moreover from assms(2) have "\<forall>q \<in> set ps. runId q = effectDeps (mount p)"
    by (simp add: mount_def)
  ultimately show ?thesis using shownFrom_sorted [of "mount p" ps] by simp
qed

text \<open>
  C5. The progress the card shows can go down within a run. The card of a run A that went
  from 0 to 100 is given run B at 0 and then at 9: it shows 0, 100, then for B 100 and 9,
  since the memo reads the ref during the render and the effect that resets the ref for
  the new run id runs after it. The effect also runs after the first render, so a card
  mounted at 50 and rendered again at 30 for the same run shows 50 and then 30.
\<close>

theorem smoothProgress_goes_down:
  "shown [\<lparr>runId = ''A'', overallProgress = Some 0\<rparr>,
          \<lparr>runId = ''A'', overallProgress = Some 100\<rparr>,
          \<lparr>runId = ''B'', overallProgress = Some 0\<rparr>,
          \<lparr>runId = ''B'', overallProgress = Some 9\<rparr>] = [0, 100, 100, 9]
   \<and> shown [\<lparr>runId = ''A'', overallProgress = Some 50\<rparr>,
            \<lparr>runId = ''A'', overallProgress = Some 30\<rparr>] = [50, 30]"
  by (simp add: mount_def render_def smoothProgressMemo_def newProgress_def)

end
